theory Spec2Isabelle
  imports Complex_Main "HOL-Library.AList"
begin

section \<open>Privacy loss distributions: a shallow embedding\<close>

text \<open>
  The embedding follows \<^verbatim>\<open>accounting/python/privacy_loss_distribution.py\<close>.
  Python floats are idealised as real numbers, extended by the two infinities where the
  source produces or tests them; rounding error, overflow and underflow of the machine
  format are outside the model. Python integers are \<^typ>\<open>int\<close>. A dictionary is an
  association list in insertion order whose keys are pairwise distinct; exceptions are
  values of a sum type.
\<close>

subsection \<open>Floats with infinities, errors\<close>

datatype xreal = MInf | Fin real | PInf

datatype error =
    ValueError string
  | ZeroDivisionError
  | OverflowError

subsection \<open>Dictionaries\<close>

text \<open>
  \<^verbatim>\<open>d.get(k, default)\<close> is \<open>dict_get\<close>, \<^verbatim>\<open>d[k] = v\<close> is \<^const>\<open>AList.update\<close> (an existing
  key keeps its place, a new key goes to the end), and \<^verbatim>\<open>d[k] += v\<close> on a
  \<^verbatim>\<open>defaultdict(lambda: 0)\<close> is \<open>dict_add\<close>: it stores the key even when \<open>v\<close> is zero.
\<close>

definition dict_get :: "('k \<times> 'v) list \<Rightarrow> 'k \<Rightarrow> 'v \<Rightarrow> 'v" where
  "dict_get d k dflt = (case map_of d k of None \<Rightarrow> dflt | Some v \<Rightarrow> v)"

definition dict_add :: "('k \<times> real) list \<Rightarrow> 'k \<Rightarrow> real \<Rightarrow> ('k \<times> real) list" where
  "dict_add d k v = AList.update k (dict_get d k 0 + v) d"

text \<open>The sum of the stored values, \<^verbatim>\<open>sum(d.values())\<close>.\<close>

definition dict_total :: "('k \<times> real) list \<Rightarrow> real" where
  "dict_total d = sum_list (map snd d)"

subsection \<open>The dictionary convolution kernel\<close>

text \<open>
  \<^verbatim>\<open>dictionary_to_list\<close>: \<^verbatim>\<open>min\<close> and \<^verbatim>\<open>max\<close> of an empty dictionary raise
  \<^verbatim>\<open>ValueError\<close>.
\<close>

definition dictionary_to_list :: "(int \<times> real) list \<Rightarrow> error + (int \<times> real list)" where
  "dictionary_to_list input_dictionary =
     (case map fst input_dictionary of
        [] \<Rightarrow> Inl (ValueError ''min() arg is an empty sequence'')
      | k # ks \<Rightarrow>
          (let offset = fold min ks k;
               max_val = fold max ks k
           in Inr (offset, map (\<lambda>i. dict_get input_dictionary i 0) [offset..max_val])))"

text \<open>\<^verbatim>\<open>list_to_dictionary\<close>: entries that are not strictly positive are left out.\<close>

definition list_to_dictionary :: "real list \<Rightarrow> int \<Rightarrow> (int \<times> real) list" where
  "list_to_dictionary input_list offset =
     fold (\<lambda>i result_dictionary.
             if input_list ! i > 0
             then AList.update (int i + offset) (input_list ! i) result_dictionary
             else result_dictionary)
          [0..<length input_list] []"

text \<open>
  \<^verbatim>\<open>scipy.signal.fftconvolve\<close> is a library routine; it is modelled by what it computes
  in exact arithmetic, the full linear convolution of the two arrays (entry \<open>n\<close> is the
  sum of \<open>in1[i] * in2[n - i]\<close>), of length \<open>len(in1) + len(in2) - 1\<close>.
\<close>

definition fftconvolve :: "real list \<Rightarrow> real list \<Rightarrow> real list" where
  "fftconvolve in1 in2 =
     map (\<lambda>n. \<Sum>i\<leftarrow>[0..<length in1].
                 if i \<le> n \<and> n - i < length in2 then in1 ! i * in2 ! (n - i) else 0)
         [0..<length in1 + length in2 - 1]"

definition convolve_dictionary ::
  "(int \<times> real) list \<Rightarrow> (int \<times> real) list \<Rightarrow> error + (int \<times> real) list" where
  "convolve_dictionary dictionary1 dictionary2 =
     (case dictionary_to_list dictionary1 of
        Inl e \<Rightarrow> Inl e
      | Inr (min1, list1) \<Rightarrow>
          (case dictionary_to_list dictionary2 of
             Inl e \<Rightarrow> Inl e
           | Inr (min2, list2) \<Rightarrow>
               Inr (list_to_dictionary (fftconvolve list1 list2) (min1 + min2))))"

text \<open>
  \<^verbatim>\<open>numpy.fft.fft(a, n)\<close> crops or zero-pads \<open>a\<close> to length \<open>n\<close> and raises
  \<^verbatim>\<open>ValueError\<close> when \<open>n < 1\<close>. By the convolution theorem the inverse transform of the
  \<open>k\<close>-th pointwise power of the transform is the \<open>k\<close>-fold circular convolution of the
  padded array with itself, which is what the model computes, in exact arithmetic (the
  imaginary residue that the source strips is zero there).
\<close>

definition fft_pad :: "nat \<Rightarrow> real list \<Rightarrow> real list" where
  "fft_pad n a = take n a @ replicate (n - length a) 0"

definition circular_convolve :: "real list \<Rightarrow> real list \<Rightarrow> real list" where
  "circular_convolve a b =
     (let n = length a
      in map (\<lambda>j. \<Sum>i\<leftarrow>[0..<n]. a ! i * b ! ((j + n - i) mod n)) [0..<n])"

primrec circular_power :: "real list \<Rightarrow> nat \<Rightarrow> real list" where
  "circular_power a 0 = map (\<lambda>j. if j = 0 then 1 else 0) [0..<length a]"
| "circular_power a (Suc k) = circular_convolve a (circular_power a k)"

definition self_convolve_dictionary ::
  "(int \<times> real) list \<Rightarrow> int \<Rightarrow> error + (int \<times> real) list" where
  "self_convolve_dictionary input_dictionary num_times =
     (case dictionary_to_list input_dictionary of
        Inl e \<Rightarrow> Inl e
      | Inr (min_val, input_list) \<Rightarrow>
          if num_times * int (length input_list) < 1
          then Inl (ValueError ''Invalid number of FFT data points'')
          else Inr (list_to_dictionary
                      (circular_power
                         (fft_pad (nat (num_times * int (length input_list))) input_list)
                         (nat num_times))
                      (min_val * num_times)))"

subsection \<open>Privacy loss distributions\<close>

record differential_privacy_parameters =
  epsilon :: real
  delta :: real

record privacy_loss_distribution =
  rounded_probability_mass_function :: "(int \<times> real) list"
  value_discretization_interval :: real
  infinity_mass :: real

text \<open>\<^verbatim>\<open>round_fn = math.ceil if pessimistic_estimate else math.floor\<close>\<close>

definition round_fn :: "bool \<Rightarrow> real \<Rightarrow> int" where
  "round_fn pessimistic_estimate v = (if pessimistic_estimate then \<lceil>v\<rceil> else \<lfloor>v\<rfloor>)"

subsubsection \<open>Construction from two probability mass functions\<close>

text \<open>
  A log-probability is a real number or \<open>-\<infinity>\<close>; \<^verbatim>\<open>math.exp\<close> of \<open>-\<infinity>\<close> is zero.
  The type leaves out \<open>+\<infinity>\<close>, which is not the logarithm of a probability mass.
\<close>

datatype logmass = NegInf | LogMass real

fun logmass_exp :: "logmass \<Rightarrow> real" where
  "logmass_exp NegInf = 0"
| "logmass_exp (LogMass l) = exp l"

fun logmass_less :: "logmass \<Rightarrow> logmass \<Rightarrow> bool" where
  "logmass_less NegInf (LogMass b) = True"
| "logmass_less (LogMass a) (LogMass b) = (a < b)"
| "logmass_less a NegInf = False"

text \<open>The first loop: the mass of the outcomes that the lower distribution never produces.\<close>

definition upper_only_mass ::
  "('o \<times> logmass) list \<Rightarrow> ('o \<times> logmass) list \<Rightarrow> real" where
  "upper_only_mass log_pmf_lower log_pmf_upper =
     fold (\<lambda>(outcome, lu) inf_mass.
             if dict_get log_pmf_lower outcome NegInf = NegInf
             then inf_mass + logmass_exp lu
             else inf_mass)
          log_pmf_upper 0"

text \<open>
  One round of the second loop, on the pair of the exact probability mass function
  (keyed by privacy loss value) and the infinity mass. In the second branch the upper
  log-probability is above the truncation bound, hence finite.
\<close>

fun pmf_step ::
  "('o \<times> logmass) list \<Rightarrow> bool \<Rightarrow> logmass \<Rightarrow> 'o \<times> logmass \<Rightarrow>
   (real \<times> real) list \<times> real \<Rightarrow> (real \<times> real) list \<times> real" where
  "pmf_step log_pmf_upper pessimistic_estimate bound (outcome, NegInf) (pmf, inf_mass) =
     (pmf, inf_mass)"
| "pmf_step log_pmf_upper pessimistic_estimate bound (outcome, LogMass ll) (pmf, inf_mass) =
     (case dict_get log_pmf_upper outcome NegInf of
        LogMass lu \<Rightarrow>
          if logmass_less bound (LogMass lu)
          then (dict_add pmf (lu - ll) (exp lu), inf_mass)
          else if pessimistic_estimate then (pmf, inf_mass + exp lu)
          else (pmf, inf_mass)
      | NegInf \<Rightarrow>
          if pessimistic_estimate then (pmf, inf_mass + 0)
          else (pmf, inf_mass))"

text \<open>
  The third loop. The division by the discretization interval raises
  \<^verbatim>\<open>ZeroDivisionError\<close> in the first round when the interval is zero.
\<close>

definition discretize ::
  "bool \<Rightarrow> real \<Rightarrow> (real \<times> real) list \<Rightarrow> error + (int \<times> real) list" where
  "discretize pessimistic_estimate interval pmf =
     (if pmf \<noteq> [] \<and> interval = 0 then Inl ZeroDivisionError
      else Inr (fold (\<lambda>(val, mass) rounded.
                        dict_add rounded (round_fn pessimistic_estimate (val / interval)) mass)
                     pmf []))"

definition from_two_probability_mass_functions ::
  "('o \<times> logmass) list \<Rightarrow> ('o \<times> logmass) list \<Rightarrow> bool \<Rightarrow> real \<Rightarrow> logmass \<Rightarrow>
   error + privacy_loss_distribution" where
  "from_two_probability_mass_functions log_pmf_lower log_pmf_upper pessimistic_estimate
       interval log_mass_truncation_bound =
     (case fold (pmf_step log_pmf_upper pessimistic_estimate log_mass_truncation_bound)
             log_pmf_lower ([], upper_only_mass log_pmf_lower log_pmf_upper) of
        (pmf, inf_mass) \<Rightarrow>
          (case discretize pessimistic_estimate interval pmf of
             Inl e \<Rightarrow> Inl e
           | Inr rounded \<Rightarrow>
               Inr \<lparr>rounded_probability_mass_function = rounded,
                    value_discretization_interval = interval,
                    infinity_mass = inf_mass\<rparr>))"

subsubsection \<open>Randomized response and known privacy parameters\<close>

definition from_randomized_response ::
  "real \<Rightarrow> int \<Rightarrow> bool \<Rightarrow> real \<Rightarrow> error + privacy_loss_distribution" where
  "from_randomized_response noise_parameter num_buckets pessimistic_estimate interval =
     (if noise_parameter \<le> 0 \<or> noise_parameter \<ge> 1
      then Inl (ValueError ''Noise parameter must be strictly between 0 and 1'')
      else if num_buckets \<le> 1
      then Inl (ValueError ''Number of buckets must be strictly greater than 1'')
      else
        (let probability_output_equal_input =
               (1 - noise_parameter) + noise_parameter / of_int num_buckets;
             probability_output_not_input = noise_parameter / of_int num_buckets
         in if interval = 0 then Inl ZeroDivisionError
            else
              (let r1 = dict_add []
                          (round_fn pessimistic_estimate
                             (ln (probability_output_equal_input / probability_output_not_input)
                              / interval))
                          probability_output_equal_input;
                   r2 = dict_add r1
                          (round_fn pessimistic_estimate
                             (ln (probability_output_not_input / probability_output_equal_input)
                              / interval))
                          probability_output_not_input;
                   r3 = dict_add r2 0 (probability_output_not_input * of_int (num_buckets - 2))
               in Inr \<lparr>rounded_probability_mass_function = r3,
                       value_discretization_interval = interval,
                       infinity_mass = 0\<rparr>)))"

text \<open>
  \<^verbatim>\<open>from_privacy_parameters\<close> builds its histogram as a dictionary display of two
  entries; when the two keys are equal the second value replaces the first.
\<close>

definition from_privacy_parameters ::
  "differential_privacy_parameters \<Rightarrow> real \<Rightarrow> error + privacy_loss_distribution" where
  "from_privacy_parameters privacy_parameters interval =
     (if interval = 0 then Inl ZeroDivisionError
      else Inr
        \<lparr>rounded_probability_mass_function =
           AList.update \<lceil>- epsilon privacy_parameters / interval\<rceil>
             ((1 - delta privacy_parameters) / (1 + exp (epsilon privacy_parameters)))
             (AList.update \<lceil>epsilon privacy_parameters / interval\<rceil>
                ((1 - delta privacy_parameters) / (1 + exp (- epsilon privacy_parameters)))
                []),
         value_discretization_interval = interval,
         infinity_mass = delta privacy_parameters\<rparr>)"

subsubsection \<open>Hockey stick divergence and its inverse\<close>

definition get_delta_for_epsilon :: "privacy_loss_distribution \<Rightarrow> real \<Rightarrow> real" where
  "get_delta_for_epsilon self eps =
     fold (\<lambda>(i, mass) divergence.
             (let val = of_int i * value_discretization_interval self
              in if val > eps \<and> mass > 0
                 then divergence + (1 - exp (eps - val)) * mass
                 else divergence))
          (rounded_probability_mass_function self) (infinity_mass self)"

text \<open>
  The code after the loop of \<^verbatim>\<open>get_epsilon_for_delta\<close>; the quotient and the logarithm
  raise where they are undefined.
\<close>

definition epsilon_after_loop :: "real \<Rightarrow> real \<Rightarrow> real \<Rightarrow> error + xreal" where
  "epsilon_after_loop dlt mass_upper mass_lower =
     (if mass_upper \<le> mass_lower + dlt then Inr (Fin 0)
      else if mass_lower = 0 then Inl ZeroDivisionError
      else if (mass_upper - dlt) / mass_lower \<le> 0 then Inl (ValueError ''math domain error'')
      else Inr (Fin (ln ((mass_upper - dlt) / mass_lower))))"

text \<open>The loop over the buckets in descending key order, with its break and its return.\<close>

fun epsilon_loop ::
  "real \<Rightarrow> real \<Rightarrow> (int \<times> real) list \<Rightarrow> real \<Rightarrow> real \<Rightarrow> error + xreal" where
  "epsilon_loop interval dlt [] mass_upper mass_lower =
     epsilon_after_loop dlt mass_upper mass_lower"
| "epsilon_loop interval dlt ((i, mass) # rest) mass_upper mass_lower =
     (let val = of_int i * interval
      in if mass_upper > dlt \<and> mass_lower > 0 \<and> ln ((mass_upper - dlt) / mass_lower) \<ge> val
         then epsilon_after_loop dlt mass_upper mass_lower
         else
           (let mass_upper' = mass_upper + mass;
                mass_lower' = mass_lower + exp (- val) * mass
            in if mass_upper' \<ge> dlt \<and> mass_lower' = 0 then Inr (Fin (max 0 val))
               else epsilon_loop interval dlt rest mass_upper' mass_lower'))"

definition get_epsilon_for_delta :: "privacy_loss_distribution \<Rightarrow> real \<Rightarrow> error + xreal" where
  "get_epsilon_for_delta self dlt =
     (if infinity_mass self > dlt then Inr PInf
      else epsilon_loop (value_discretization_interval self) dlt
             (rev (sort_key fst (rounded_probability_mass_function self)))
             (infinity_mass self) 0)"

subsubsection \<open>Composition\<close>

definition compose ::
  "privacy_loss_distribution \<Rightarrow> privacy_loss_distribution \<Rightarrow> error + privacy_loss_distribution" where
  "compose self other =
     (if value_discretization_interval self \<noteq> value_discretization_interval other
      then Inl (ValueError ''Discretization intervals are different'')
      else
        (case convolve_dictionary (rounded_probability_mass_function self)
                (rounded_probability_mass_function other) of
           Inl e \<Rightarrow> Inl e
         | Inr new_rounded_probability_mass_function \<Rightarrow>
             Inr \<lparr>rounded_probability_mass_function = new_rounded_probability_mass_function,
                  value_discretization_interval = value_discretization_interval self,
                  infinity_mass =
                    infinity_mass self + infinity_mass other
                    - infinity_mass self * infinity_mass other\<rparr>))"

definition self_compose ::
  "privacy_loss_distribution \<Rightarrow> int \<Rightarrow> error + privacy_loss_distribution" where
  "self_compose self num_times =
     (case self_convolve_dictionary (rounded_probability_mass_function self) num_times of
        Inl e \<Rightarrow> Inl e
      | Inr new_rounded_probability_mass_function \<Rightarrow>
          Inr \<lparr>rounded_probability_mass_function = new_rounded_probability_mass_function,
               value_discretization_interval = value_discretization_interval self,
               infinity_mass = 1 - (1 - infinity_mass self) ^ nat num_times\<rparr>)"

subsection \<open>The Laplace mechanism\<close>

text \<open>\<^verbatim>\<open>LaplacePrivacyLossDistribution.privacy_loss\<close>\<close>

definition laplace_privacy_loss :: "real \<Rightarrow> real \<Rightarrow> real \<Rightarrow> real" where
  "laplace_privacy_loss parameter sensitivity x = (\<bar>x - sensitivity\<bar> - \<bar>x\<bar>) / parameter"

text \<open>\<^verbatim>\<open>LaplacePrivacyLossDistribution.inverse_privacy_loss\<close>\<close>

definition laplace_inverse_privacy_loss :: "real \<Rightarrow> real \<Rightarrow> real \<Rightarrow> xreal" where
  "laplace_inverse_privacy_loss parameter sensitivity privacy_loss =
     (if privacy_loss > sensitivity / parameter then MInf
      else if privacy_loss \<le> - sensitivity / parameter then PInf
      else Fin (0.5 * (sensitivity - privacy_loss * parameter)))"

subsection \<open>Additive noise mechanisms with discrete noise\<close>

record tail_privacy_loss_distribution =
  lower_x_truncation :: real
  upper_x_truncation :: real
  tail_probability_mass_function :: "(xreal \<times> real) list"

text \<open>
  The first loop of \<^verbatim>\<open>AdditiveNoisePrivacyLossDistribution.__init__\<close>: every finite
  privacy loss of the tail is divided by the discretization interval, rounded and added
  to the histogram. The division raises when the interval is zero, and \<^verbatim>\<open>math.ceil\<close>
  and \<^verbatim>\<open>math.floor\<close> raise \<^verbatim>\<open>OverflowError\<close> on an infinite argument.
\<close>

fun seed_tail ::
  "bool \<Rightarrow> real \<Rightarrow> (xreal \<times> real) list \<Rightarrow> (int \<times> real) list \<Rightarrow> error + (int \<times> real) list" where
  "seed_tail pessimistic_estimate interval [] rounded = Inr rounded"
| "seed_tail pessimistic_estimate interval ((PInf, mass) # rest) rounded =
     seed_tail pessimistic_estimate interval rest rounded"
| "seed_tail pessimistic_estimate interval ((MInf, mass) # rest) rounded =
     (if interval = 0 then Inl ZeroDivisionError else Inl OverflowError)"
| "seed_tail pessimistic_estimate interval ((Fin privacy_loss, mass) # rest) rounded =
     (if interval = 0 then Inl ZeroDivisionError
      else seed_tail pessimistic_estimate interval rest
             (dict_add rounded (round_fn pessimistic_estimate (privacy_loss / interval)) mass))"

text \<open>
  \<^verbatim>\<open>AdditiveNoisePrivacyLossDistribution.__init__\<close> called with
  \<^verbatim>\<open>discrete_noise=True\<close>, the only way the discrete Laplace mechanism calls it. The
  methods of the subclass that it uses are arguments: the value of
  \<^verbatim>\<open>privacy_loss_tail()\<close>, \<^verbatim>\<open>privacy_loss\<close> and \<^verbatim>\<open>noise_cdf\<close>, both evaluated at
  integers only. The second loop runs over
  \<^verbatim>\<open>range(math.ceil(lower_x_truncation), math.floor(upper_x_truncation) + 1)\<close>.
\<close>

definition additive_noise_init_discrete ::
  "tail_privacy_loss_distribution \<Rightarrow> (int \<Rightarrow> real) \<Rightarrow> (int \<Rightarrow> real) \<Rightarrow> real \<Rightarrow> bool \<Rightarrow> real \<Rightarrow>
   error + privacy_loss_distribution" where
  "additive_noise_init_discrete tail_pld privacy_loss noise_cdf sensitivity
       pessimistic_estimate interval =
     (if sensitivity \<le> 0 then Inl (ValueError ''Sensitivity is not a positive real number'')
      else
        (case seed_tail pessimistic_estimate interval
                (tail_probability_mass_function tail_pld) [] of
           Inl e \<Rightarrow> Inl e
         | Inr seeded \<Rightarrow>
             Inr \<lparr>rounded_probability_mass_function =
                    fold (\<lambda>x rounded.
                            dict_add rounded (round_fn pessimistic_estimate (privacy_loss x))
                              (noise_cdf x - noise_cdf (x - 1)))
                         [\<lceil>lower_x_truncation tail_pld\<rceil>..\<lfloor>upper_x_truncation tail_pld\<rfloor>]
                         seeded,
                  value_discretization_interval = interval,
                  infinity_mass =
                    dict_get (tail_probability_mass_function tail_pld) PInf 0\<rparr>))"

text \<open>
  The discrete Laplace mechanism. Its sensitivity is an integer (the constructor rejects
  anything else), and the cumulative distribution function of
  \<^verbatim>\<open>scipy.stats.dlaplace(parameter)\<close> is the argument \<open>cdf\<close>.
\<close>

definition discrete_laplace_privacy_loss_tail ::
  "(int \<Rightarrow> real) \<Rightarrow> real \<Rightarrow> int \<Rightarrow> tail_privacy_loss_distribution" where
  "discrete_laplace_privacy_loss_tail cdf parameter sensitivity =
     \<lparr>lower_x_truncation = 1,
      upper_x_truncation = of_int (sensitivity - 1),
      tail_probability_mass_function =
        AList.update (Fin (- of_int sensitivity * parameter)) (cdf (- sensitivity))
          (AList.update (Fin (of_int sensitivity * parameter)) (cdf 0) [])\<rparr>"

definition discrete_laplace_privacy_loss :: "real \<Rightarrow> int \<Rightarrow> int \<Rightarrow> real" where
  "discrete_laplace_privacy_loss parameter sensitivity x =
     of_int (\<bar>x - sensitivity\<bar> - \<bar>x\<bar>) * parameter"

definition discrete_laplace_init ::
  "(int \<Rightarrow> real) \<Rightarrow> real \<Rightarrow> int \<Rightarrow> bool \<Rightarrow> real \<Rightarrow> error + privacy_loss_distribution" where
  "discrete_laplace_init cdf parameter sensitivity pessimistic_estimate interval =
     (if parameter \<le> 0 then Inl (ValueError ''Parameter is not a positive real number'')
      else additive_noise_init_discrete
             (discrete_laplace_privacy_loss_tail cdf parameter sensitivity)
             (discrete_laplace_privacy_loss parameter sensitivity) cdf
             (of_int sensitivity) pessimistic_estimate interval)"

subsection \<open>Additive noise mechanisms with continuous noise\<close>

text \<open>The order of the floats with infinities, and \<^verbatim>\<open>min\<close> on them.\<close>

fun xreal_le :: "xreal \<Rightarrow> xreal \<Rightarrow> bool" where
  "xreal_le MInf b = True"
| "xreal_le (Fin a) MInf = False"
| "xreal_le (Fin a) (Fin b) = (a \<le> b)"
| "xreal_le (Fin a) PInf = True"
| "xreal_le PInf PInf = True"
| "xreal_le PInf b = False"








subsection \<open>Dictionary convolution, as the specification words it\<close>

text \<open>
  The value of the convolution of two dictionaries at a key: the sum, over all pairs of
  a key of the first and a key of the second dictionary that add up to the key, of the
  product of their masses. This definition follows the specification, not the code; the
  code goes through dense lists (\<open>convolve_dictionary\<close>).
\<close>

definition dictionary_convolution :: "(int \<times> real) list \<Rightarrow> (int \<times> real) list \<Rightarrow> int \<Rightarrow> real" where
  "dictionary_convolution dictionary1 dictionary2 key =
     (\<Sum>(key1, mass1)\<leftarrow>dictionary1. \<Sum>(key2, mass2)\<leftarrow>dictionary2.
        if key1 + key2 = key then mass1 * mass2 else 0)"

subsection \<open>Bookkeeping for the mass of a constructed distribution\<close>

text \<open>
  An auxiliary function of the proofs, not of the source: the probability mass of the
  upper distribution that one round of the second loop of
  \<open>from_two_probability_mass_functions\<close> puts into the histogram or into the infinity
  mass.
\<close>

fun accounted :: "('o \<times> logmass) list \<Rightarrow> bool \<Rightarrow> logmass \<Rightarrow> 'o \<times> logmass \<Rightarrow> real" where
  "accounted upper pess bound (outcome, NegInf) = 0"
| "accounted upper pess bound (outcome, LogMass ll) =
     (if pess \<or> logmass_less bound (dict_get upper outcome NegInf)
      then logmass_exp (dict_get upper outcome NegInf) else 0)"

section \<open>Theorems\<close>

subsection \<open>Inverse privacy loss of the Laplace mechanism\<close>

lemma laplace_loss_at_inverse:
  fixes b s L :: real
  assumes b: "0 < b" and lo: "- s / b < L" and hi: "L \<le> s / b"
  shows "L \<le> (\<bar>(s - L * b) / 2 - s\<bar> - \<bar>(s - L * b) / 2\<bar>) / b"
proof -
  from b hi have h1: "L * b \<le> s" by (simp add: field_simps)
  from b lo have h2: "- s < L * b" by (simp add: field_simps)
  from h1 have a1: "\<bar>(s - L * b) / 2\<bar> = (s - L * b) / 2" by simp
  from h2 have a2: "\<bar>(s - L * b) / 2 - s\<bar> = s - (s - L * b) / 2" by simp
  have "(\<bar>(s - L * b) / 2 - s\<bar> - \<bar>(s - L * b) / 2\<bar>) / b = (L * b) / b"
    unfolding a1 a2 by (simp add: field_simps)
  also have "\<dots> = L" using b by simp
  finally show ?thesis by simp
qed

lemma laplace_loss_above_inverse:
  fixes b s L x :: real
  assumes b: "0 < b" and s: "0 < s" and lo: "- s / b < L"
    and x: "L \<le> (\<bar>x - s\<bar> - \<bar>x\<bar>) / b"
  shows "x \<le> (s - L * b) / 2"
proof -
  from b x have h: "L * b \<le> \<bar>x - s\<bar> - \<bar>x\<bar>" by (simp add: field_simps)
  from b lo have h2: "- s < L * b" by (simp add: field_simps)
  show ?thesis using h h2 s by (auto simp: abs_if split: if_splits)
qed

text \<open>
  Claim C8. For the Laplace mechanism with parameter \<open>b > 0\<close> and sensitivity \<open>s > 0\<close>,
  \<open>inverse_privacy_loss L\<close> is \<open>+\<infinity>\<close> when \<open>L \<le> -s/b\<close>, is \<open>0.5 * (s - L * b)\<close> when
  \<open>-s/b < L \<le> s/b\<close>, and is \<open>-\<infinity>\<close> when \<open>L > s/b\<close>; in the finite range the returned
  point has privacy loss at least \<open>L\<close> and every point with privacy loss at least \<open>L\<close>
  lies at or below it, so it is the largest such point.
\<close>

theorem laplace_inverse_privacy_loss_largest:
  assumes "0 < b" and "0 < s"
  shows "(L \<le> - s / b \<longrightarrow> laplace_inverse_privacy_loss b s L = PInf)
       \<and> (- s / b < L \<and> L \<le> s / b \<longrightarrow>
            laplace_inverse_privacy_loss b s L = Fin (0.5 * (s - L * b))
          \<and> L \<le> laplace_privacy_loss b s (0.5 * (s - L * b))
          \<and> (\<forall>x. L \<le> laplace_privacy_loss b s x \<longrightarrow> x \<le> 0.5 * (s - L * b)))
       \<and> (L > s / b \<longrightarrow> laplace_inverse_privacy_loss b s L = MInf)"
proof (intro conjI impI allI)
  have neg_lt: "- s / b < s / b"
    using assms by (simp add: divide_strict_right_mono)
  show "laplace_inverse_privacy_loss b s L = PInf" if "L \<le> - s / b"
    using that neg_lt by (simp add: laplace_inverse_privacy_loss_def)
  show "laplace_inverse_privacy_loss b s L = MInf" if "s / b < L"
    using that by (simp add: laplace_inverse_privacy_loss_def)
  show "laplace_inverse_privacy_loss b s L = Fin (0.5 * (s - L * b))"
    if "- s / b < L \<and> L \<le> s / b"
    using that by (simp add: laplace_inverse_privacy_loss_def)
  show "L \<le> laplace_privacy_loss b s (0.5 * (s - L * b))"
    if "- s / b < L \<and> L \<le> s / b"
    using laplace_loss_at_inverse [of b s L] that assms
    by (simp add: laplace_privacy_loss_def)
  show "x \<le> 0.5 * (s - L * b)"
    if "- s / b < L \<and> L \<le> s / b" and "L \<le> laplace_privacy_loss b s x" for x
    using laplace_loss_above_inverse [of b s L x] that assms
    by (simp add: laplace_privacy_loss_def)
qed

theorem laplace_inverse_privacy_loss_largest_witness:
  "(0::real) < 1
   \<and> laplace_inverse_privacy_loss 1 1 (- 2) = PInf
   \<and> laplace_inverse_privacy_loss 1 1 0 = Fin (1 / 2)
   \<and> 0 \<le> laplace_privacy_loss 1 1 (1 / 2)
   \<and> laplace_inverse_privacy_loss 1 1 2 = MInf"
  using laplace_inverse_privacy_loss_largest [of 1 1 "- 2"]
    laplace_inverse_privacy_loss_largest [of 1 1 0]
    laplace_inverse_privacy_loss_largest [of 1 1 2]
  by simp

subsection \<open>The hockey stick divergence is non-increasing\<close>

lemma fold_divergence:
  "fold (\<lambda>(i, mass) divergence.
             (let val = of_int i * w
              in if val > eps \<and> mass > 0
                 then divergence + (1 - exp (eps - val)) * mass
                 else divergence)) d a
   = a + (\<Sum>(i, mass)\<leftarrow>d. if of_int i * w > eps \<and> mass > 0
                              then (1 - exp (eps - of_int i * w)) * mass else 0)"
  by (induction d arbitrary: a) (auto simp: Let_def)

lemma hockey_term_mono:
  fixes e1 e2 v m :: real
  assumes "e1 \<le> e2"
  shows "(if v > e2 \<and> m > 0 then (1 - exp (e2 - v)) * m else 0)
       \<le> (if v > e1 \<and> m > 0 then (1 - exp (e1 - v)) * m else 0)"
  using assms by (auto simp: mult_right_mono mult_nonneg_nonneg)

text \<open>
  Claim C6. For every privacy loss distribution and all reals \<open>epsilon1 \<le> epsilon2\<close>,
  \<open>get_delta_for_epsilon epsilon1 \<ge> get_delta_for_epsilon epsilon2\<close>: the computed hockey
  stick divergence is non-increasing in epsilon. Buckets whose mass is not positive are
  skipped by the code, so no assumption on the masses is needed.
\<close>

theorem get_delta_for_epsilon_antimono:
  assumes "epsilon1 \<le> epsilon2"
  shows "get_delta_for_epsilon self epsilon2 \<le> get_delta_for_epsilon self epsilon1"
  unfolding get_delta_for_epsilon_def fold_divergence
  by (auto intro!: sum_list_mono hockey_term_mono [OF assms])

theorem get_delta_for_epsilon_antimono_witness:
  "(0::real) \<le> 1
   \<and> get_delta_for_epsilon
         \<lparr>rounded_probability_mass_function = [(1, 1 / 2), (- 1, 1 / 2)],
          value_discretization_interval = 1, infinity_mass = 0\<rparr> 1
     \<le> get_delta_for_epsilon
         \<lparr>rounded_probability_mass_function = [(1, 1 / 2), (- 1, 1 / 2)],
          value_discretization_interval = 1, infinity_mass = 0\<rparr> 0"
  using get_delta_for_epsilon_antimono
    [of 0 1 "\<lparr>rounded_probability_mass_function = [(1, 1 / 2), (- 1, 1 / 2)],
              value_discretization_interval = 1, infinity_mass = 0\<rparr>"]
  by simp

subsection \<open>Epsilon for delta on a histogram with zero-mass buckets\<close>

text \<open>
  Claim C4. \<open>get_epsilon_for_delta delta\<close> is claimed to be the smallest non-negative
  epsilon with \<open>get_delta_for_epsilon epsilon \<le> delta\<close>. The distribution that
  \<open>from_privacy_parameters\<close> builds for \<open>epsilon = 1\<close>, \<open>delta = 1\<close> stores two buckets
  of mass zero; on it \<open>get_epsilon_for_delta 1\<close> leaves through the branch for
  \<open>mass_lower = 0\<close> and returns \<open>1\<close>, although the divergence at epsilon \<open>0\<close> is
  already \<open>1 \<le> delta\<close>.
\<close>

theorem get_epsilon_for_delta_not_smallest:
  "from_privacy_parameters \<lparr>epsilon = 1, delta = 1\<rparr> (1 / 10000)
     = Inr \<lparr>rounded_probability_mass_function = [(10000, 0), (- 10000, 0)],
            value_discretization_interval = 1 / 10000, infinity_mass = 1\<rparr>
   \<and> get_epsilon_for_delta
         \<lparr>rounded_probability_mass_function = [(10000, 0), (- 10000, 0)],
          value_discretization_interval = 1 / 10000, infinity_mass = 1\<rparr> 1
       = Inr (Fin 1)
   \<and> get_delta_for_epsilon
         \<lparr>rounded_probability_mass_function = [(10000, 0), (- 10000, 0)],
          value_discretization_interval = 1 / 10000, infinity_mass = 1\<rparr> 0
       = 1"
  by (simp add: from_privacy_parameters_def get_epsilon_for_delta_def
      get_delta_for_epsilon_def)

subsection \<open>Known privacy parameters with epsilon zero\<close>

text \<open>
  Claim C10. For every \<open>delta\<close> (in particular every \<open>delta\<close> in \<open>[0, 1]\<close>),
  \<open>from_privacy_parameters\<close> with \<open>epsilon = 0\<close> returns a histogram with the single
  bucket \<open>0\<close> of mass \<open>(1 - delta) / 2\<close>: the two entries of the dictionary display have
  the same key and the second replaces the first. So the infinity mass plus the total
  mass of the histogram is \<open>delta + (1 - delta) / 2\<close>, which is below \<open>1\<close> whenever
  \<open>delta < 1\<close>. The discretization interval is any non-zero real; the code divides by it.
\<close>

theorem from_privacy_parameters_epsilon_zero:
  assumes "interval \<noteq> 0"
  shows "from_privacy_parameters \<lparr>epsilon = 0, delta = d\<rparr> interval
           = Inr \<lparr>rounded_probability_mass_function = [(0, (1 - d) / 2)],
                  value_discretization_interval = interval, infinity_mass = d\<rparr>
       \<and> d + dict_total [(0 :: int, (1 - d) / 2)] = d + (1 - d) / 2
       \<and> (d < 1 \<longrightarrow> d + dict_total [(0 :: int, (1 - d) / 2)] < 1)"
  using assms by (auto simp: from_privacy_parameters_def dict_total_def field_simps)

theorem from_privacy_parameters_epsilon_zero_witness:
  "(1 / 10000 :: real) \<noteq> 0
   \<and> from_privacy_parameters \<lparr>epsilon = 0, delta = 1 / 2\<rparr> (1 / 10000)
       = Inr \<lparr>rounded_probability_mass_function = [(0, 1 / 4)],
              value_discretization_interval = 1 / 10000, infinity_mass = 1 / 2\<rparr>
   \<and> 1 / 2 + dict_total [(0 :: int, 1 / 4)] < 1"
  using from_privacy_parameters_epsilon_zero [of "1 / 10000" "1 / 2"] by simp

subsection \<open>Validation in the randomized response constructor\<close>

text \<open>
  Claim C9. \<open>from_randomized_response\<close> raises its configuration error (a
  \<^verbatim>\<open>ValueError\<close>) exactly when \<open>noise_parameter \<le> 0\<close>, \<open>noise_parameter \<ge> 1\<close> or
  \<open>num_buckets \<le> 1\<close>; on every other input, with a non-zero discretization interval as
  the data model requires, it returns a privacy loss distribution whose infinity mass
  is \<open>0\<close>.
\<close>

theorem from_randomized_response_errors:
  "((\<exists>msg. from_randomized_response noise_parameter num_buckets pessimistic_estimate interval
            = Inl (ValueError msg))
      \<longleftrightarrow> (noise_parameter \<le> 0 \<or> noise_parameter \<ge> 1 \<or> num_buckets \<le> 1))
   \<and> (0 < noise_parameter \<and> noise_parameter < 1 \<and> 1 < num_buckets \<and> interval \<noteq> 0 \<longrightarrow>
        (\<exists>pld. from_randomized_response noise_parameter num_buckets pessimistic_estimate interval
                = Inr pld
              \<and> infinity_mass pld = 0))"
  by (auto simp: from_randomized_response_def Let_def)

theorem from_randomized_response_errors_witness:
  "(0 :: real) < 1 / 2 \<and> (1 / 2 :: real) < 1 \<and> (1 :: int) < 2 \<and> (1 :: real) \<noteq> 0
   \<and> (\<exists>pld. from_randomized_response (1 / 2) 2 True 1 = Inr pld \<and> infinity_mass pld = 0)"
  using from_randomized_response_errors [of "1 / 2" 2 True 1] by simp

subsection \<open>The bucket of a discrete noise value\<close>

lemma ceiling_minus_one_real: "\<lceil>- 1 :: real\<rceil> = - 1"
  by (simp add: ceiling_eq_iff)

text \<open>
  Claim C1. In the shared construction for discrete noise, the mass
  \<open>noise_cdf x - noise_cdf (x - 1)\<close> of an integer \<open>x\<close> of the body is claimed to go to
  the bucket \<open>round_fn (privacy_loss x / value_discretization_interval)\<close>, as the masses
  of the tail do. The code rounds \<open>privacy_loss x\<close> itself, without the division. For the
  discrete Laplace mechanism with parameter \<open>1\<close>, sensitivity \<open>3\<close> and the default
  interval \<open>1e-4\<close>, pessimistic, the masses of \<open>x = 1\<close> and \<open>x = 2\<close> are stored at the
  buckets \<open>1\<close> and \<open>-1\<close> and not at \<open>10000\<close> and \<open>-10000\<close>, while the tail masses are at
  \<open>30000\<close> and \<open>-30000\<close>.
\<close>

theorem discrete_noise_bucket_not_divided:
  "discrete_laplace_init cdf 1 3 True (1 / 10000)
     = Inr \<lparr>rounded_probability_mass_function =
              [(30000, cdf 0), (- 30000, cdf (- 3)),
               (1, cdf 1 - cdf 0), (- 1, cdf 2 - cdf 1)],
            value_discretization_interval = 1 / 10000, infinity_mass = 0\<rparr>
   \<and> round_fn True (discrete_laplace_privacy_loss 1 3 1 / (1 / 10000)) = 10000
   \<and> round_fn True (discrete_laplace_privacy_loss 1 3 2 / (1 / 10000)) = - 10000"
  by (simp add: discrete_laplace_init_def additive_noise_init_discrete_def
      discrete_laplace_privacy_loss_tail_def discrete_laplace_privacy_loss_def
      dict_add_def dict_get_def round_fn_def upto.simps ceiling_minus_one_real)

subsection \<open>The convolution kernel: conversions between dictionaries and lists\<close>

lemma dictionary_to_list_nonempty:
  assumes "d \<noteq> []"
  shows "dictionary_to_list d
       = Inr (Min (fst ` set d),
              map (\<lambda>i. dict_get d i 0) [Min (fst ` set d)..Max (fst ` set d)])"
proof -
  from assms obtain p ps where d: "d = p # ps" by (cases d) auto
  have "fold min (map fst ps) (fst p) = Min (set (map fst d))"
    unfolding d by (simp only: list.map Min.set_eq_fold)
  moreover have "fold max (map fst ps) (fst p) = Max (set (map fst d))"
    unfolding d by (simp only: list.map Max.set_eq_fold)
  ultimately show ?thesis
    by (simp add: dictionary_to_list_def d Let_def)
qed

lemma map_of_list_to_dictionary_upto:
  "n \<le> length xs \<Longrightarrow>
   map_of (fold (\<lambda>i result_dictionary.
             if xs ! i > 0
             then AList.update (int i + off) (xs ! i) result_dictionary
             else result_dictionary) [0..<n] []) k
   = (if off \<le> k \<and> k < off + int n \<and> xs ! nat (k - off) > 0
      then Some (xs ! nat (k - off)) else None)"
proof (induction n arbitrary: k)
  case 0
  then show ?case by simp
next
  case (Suc n)
  let ?g = "fold (\<lambda>i result_dictionary.
             if xs ! i > 0
             then AList.update (int i + off) (xs ! i) result_dictionary
             else result_dictionary) [0..<n] []"
  from Suc have IH: "\<And>k. map_of ?g k
   = (if off \<le> k \<and> k < off + int n \<and> xs ! nat (k - off) > 0
      then Some (xs ! nat (k - off)) else None)" by simp
  show ?case
  proof (cases "k = int n + off")
    case True
    have "map_of ?g (int n + off) = None" by (simp add: IH)
    then show ?thesis using True by (simp add: update_conv')
  next
    case False
    then have "k < off + int (Suc n) \<longleftrightarrow> k < off + int n" by auto
    then show ?thesis using False by (simp add: IH update_conv')
  qed
qed

lemma map_of_list_to_dictionary:
  "map_of (list_to_dictionary xs off) k
   = (if off \<le> k \<and> k < off + int (length xs) \<and> xs ! nat (k - off) > 0
      then Some (xs ! nat (k - off)) else None)"
  unfolding list_to_dictionary_def by (rule map_of_list_to_dictionary_upto) simp


lemma update_fresh_append:
  "k \<notin> fst ` set al \<Longrightarrow> AList.update k v al = al @ [(k, v)]"
  by (induction al) auto

lemma list_to_dictionary_upto_filter:
  "n \<le> length xs \<Longrightarrow>
   fold (\<lambda>i result_dictionary.
             if xs ! i > 0
             then AList.update (int i + off) (xs ! i) result_dictionary
             else result_dictionary) [0..<n] []
   = map (\<lambda>i. (int i + off, xs ! i)) (filter (\<lambda>i. xs ! i > 0) [0..<n])"
proof (induction n)
  case 0
  then show ?case by simp
next
  case (Suc n)
  have "int n + off \<notin> fst ` set (map (\<lambda>i. (int i + off, xs ! i)) (filter (\<lambda>i. xs ! i > 0) [0..<n]))"
    by auto
  with Suc show ?case by (simp add: update_fresh_append)
qed

lemma list_to_dictionary_filter:
  "list_to_dictionary xs off
   = map (\<lambda>i. (int i + off, xs ! i)) (filter (\<lambda>i. xs ! i > 0) [0..<length xs])"
  unfolding list_to_dictionary_def by (rule list_to_dictionary_upto_filter) simp


subsection \<open>Self-composition once\<close>

lemma circular_index_zero:
  fixes i j n :: nat
  assumes "i < n" "j < n"
  shows "(j + n - i) mod n = 0 \<longleftrightarrow> i = j"
proof (cases "i \<le> j")
  case True
  then have "j + n - i = (j - i) + n" by simp
  then have "(j + n - i) mod n = (j - i) mod n" by simp
  also have "\<dots> = j - i" using assms by simp
  finally show ?thesis using True by auto
next
  case False
  then have "j + n - i < n" "0 < j + n - i" using assms by auto
  then show ?thesis using False by auto
qed

lemma circular_convolve_impulse:
  "circular_convolve a (map (\<lambda>j. if j = 0 then 1 else 0) [0..<length a]) = a"
proof (rule nth_equalityI)
  show "length (circular_convolve a (map (\<lambda>j. if j = 0 then 1 else 0) [0..<length a])) = length a"
    by (simp add: circular_convolve_def Let_def)
next
  fix j
  assume "j < length (circular_convolve a (map (\<lambda>j. if j = 0 then 1 else 0) [0..<length a]))"
  then have j: "j < length a" by (simp add: circular_convolve_def Let_def)
  let ?n = "length a"
  let ?b = "map (\<lambda>j. if j = 0 then 1 else (0::real)) [0..<?n]"
  have summand: "a ! i * ?b ! ((j + ?n - i) mod ?n) = (if i = j then a ! i else 0)"
    if "i \<in> {0..<?n}" for i
  proof -
    from j have "0 < ?n" by auto
    then have lt: "(j + ?n - i) mod ?n < ?n" by (rule mod_less_divisor)
    from that have i: "i < ?n" by simp
    have "?b ! ((j + ?n - i) mod ?n) = (if (j + ?n - i) mod ?n = 0 then 1 else 0)"
      using lt by simp
    also have "\<dots> = (if i = j then 1 else 0)"
      using circular_index_zero [OF i j] by simp
    finally show ?thesis by simp
  qed
  have "circular_convolve a ?b ! j = (\<Sum>i\<leftarrow>[0..<?n]. a ! i * ?b ! ((j + ?n - i) mod ?n))"
    using j by (simp add: circular_convolve_def Let_def)
  also have "\<dots> = (\<Sum>i\<in>{0..<?n}. a ! i * ?b ! ((j + ?n - i) mod ?n))"
    by (simp add: interv_sum_list_conv_sum_set_nat)
  also have "\<dots> = (\<Sum>i\<in>{0..<?n}. if i = j then a ! i else 0)"
    by (rule sum.cong) (simp_all only: summand)
  also have "\<dots> = a ! j" using j by simp
  finally show "circular_convolve a ?b ! j = a ! j" .
qed

lemma fft_pad_same: "fft_pad (length a) a = a"
  by (simp add: fft_pad_def)

lemma key_in_range:
  assumes "map_of d k = Some m"
  shows "Min (fst ` set d) \<le> k \<and> k \<le> Max (fst ` set d)"
proof -
  from assms have "k \<in> fst ` set d" by (metis map_of_SomeD fst_conv image_eqI)
  then show ?thesis by simp
qed

lemma dense_nth:
  assumes "mn \<le> k" "k \<le> mx"
  shows "map f [mn..mx] ! nat (k - mn) = f k"
proof -
  have "nat (k - mn) < length [mn..mx]" using assms by simp
  moreover have "[mn..mx] ! nat (k - mn) = k" using assms by (simp add: nth_upto)
  ultimately show ?thesis by simp
qed

lemma map_of_positive_part:
  assumes "d \<noteq> []"
  shows "map_of (list_to_dictionary
            (map (\<lambda>i. dict_get d i 0) [Min (fst ` set d)..Max (fst ` set d)])
            (Min (fst ` set d))) k
       = (case map_of d k of None \<Rightarrow> None | Some m \<Rightarrow> if 0 < m then Some m else None)"
proof -
  define mn mx where "mn = Min (fst ` set d)" and "mx = Max (fst ` set d)"
  define L where "L = map (\<lambda>i. dict_get d i (0::real)) [mn..mx]"
  have le: "mn \<le> mx" using assms by (simp add: mn_def mx_def)
  have len: "int (length L) = mx - mn + 1" using le by (simp add: L_def)
  have rng: "(mn \<le> k \<and> k < mn + int (length L)) \<longleftrightarrow> (mn \<le> k \<and> k \<le> mx)"
    unfolding len by auto
  have nth: "L ! nat (k - mn) = dict_get d k 0" if "mn \<le> k \<and> k \<le> mx"
    unfolding L_def using that by (intro dense_nth) simp_all
  have char: "map_of (list_to_dictionary L mn) k
      = (if (mn \<le> k \<and> k \<le> mx) \<and> 0 < L ! nat (k - mn)
         then Some (L ! nat (k - mn)) else None)"
    unfolding map_of_list_to_dictionary using rng by auto
  have goal: "map_of (list_to_dictionary L mn) k
       = (case map_of d k of None \<Rightarrow> None | Some m \<Rightarrow> if 0 < m then Some m else None)"
  proof (cases "map_of d k")
    case None
    show ?thesis
    proof (cases "mn \<le> k \<and> k \<le> mx")
      case True
      with nth None have "L ! nat (k - mn) = 0" by (simp add: dict_get_def)
      then show ?thesis using None char by simp
    next
      case False
      then show ?thesis using None char by auto
    qed
  next
    case (Some m)
    from key_in_range [OF Some] have in_rng: "mn \<le> k \<and> k \<le> mx"
      by (simp add: mn_def mx_def)
    with nth Some have "L ! nat (k - mn) = m" by (simp add: dict_get_def)
    then show ?thesis using Some in_rng char by simp
  qed
  then show ?thesis by (simp only: L_def mn_def mx_def)
qed

lemma self_convolve_dictionary_once:
  assumes "d \<noteq> []"
  shows "self_convolve_dictionary d 1
       = Inr (list_to_dictionary
            (map (\<lambda>i. dict_get d i 0) [Min (fst ` set d)..Max (fst ` set d)])
            (Min (fst ` set d)))"
proof -
  define mn mx where "mn = Min (fst ` set d)" and "mx = Max (fst ` set d)"
  define L where "L = map (\<lambda>i. dict_get d i (0::real)) [mn..mx]"
  have le: "mn \<le> mx" using assms by (simp add: mn_def mx_def)
  have len: "\<not> int (length L) < 1" using le by (simp add: L_def)
  have d2l: "dictionary_to_list d = Inr (mn, L)"
    by (simp only: dictionary_to_list_nonempty [OF assms] L_def mn_def mx_def)
  have "self_convolve_dictionary d 1 = Inr (list_to_dictionary L (mn * 1))"
    unfolding self_convolve_dictionary_def d2l using len
    by (simp add: fft_pad_same circular_convolve_impulse)
  then show ?thesis by (simp add: L_def mn_def mx_def)
qed


lemma self_compose_once:
  assumes "rounded_probability_mass_function self \<noteq> []"
  shows "self_compose self 1
       = Inr \<lparr>rounded_probability_mass_function =
                list_to_dictionary
                  (map (\<lambda>i. dict_get (rounded_probability_mass_function self) i 0)
                     [Min (fst ` set (rounded_probability_mass_function self))..
                      Max (fst ` set (rounded_probability_mass_function self))])
                  (Min (fst ` set (rounded_probability_mass_function self))),
              value_discretization_interval = value_discretization_interval self,
              infinity_mass = infinity_mass self\<rparr>"
  by (simp add: self_compose_def self_convolve_dictionary_once [OF assms])

text \<open>
  Claim C7, amended. For every privacy loss distribution with a non-empty histogram,
  \<open>self_compose 1\<close> returns a distribution with the original discretization interval
  and infinity mass whose histogram holds exactly the original buckets of strictly
  positive mass, with their masses; so it is the original histogram (same keys, same
  masses) whenever every stored mass is positive. Histograms are compared as mappings:
  the result lists its keys in ascending order.
\<close>

theorem self_compose_once_keeps_positive_buckets:
  assumes "rounded_probability_mass_function self \<noteq> []"
  shows "\<exists>pld. self_compose self 1 = Inr pld
      \<and> (\<forall>k. map_of (rounded_probability_mass_function pld) k
              = (case map_of (rounded_probability_mass_function self) k of
                   None \<Rightarrow> None
                 | Some m \<Rightarrow> if 0 < m then Some m else None))
      \<and> (list_all (\<lambda>(k, m). 0 < m) (rounded_probability_mass_function self) \<longrightarrow>
           map_of (rounded_probability_mass_function pld)
           = map_of (rounded_probability_mass_function self))
      \<and> value_discretization_interval pld = value_discretization_interval self
      \<and> infinity_mass pld = infinity_mass self"
proof -
  let ?d = "rounded_probability_mass_function self"
  let ?new = "list_to_dictionary (map (\<lambda>i. dict_get ?d i 0) [Min (fst ` set ?d)..Max (fst ` set ?d)])
                (Min (fst ` set ?d))"
  have char: "map_of ?new k
      = (case map_of ?d k of None \<Rightarrow> None | Some m \<Rightarrow> if 0 < m then Some m else None)" for k
    by (rule map_of_positive_part [OF assms])
  have same: "map_of ?new = map_of ?d" if pos: "list_all (\<lambda>(k, m). 0 < m) ?d"
  proof
    fix k
    show "map_of ?new k = map_of ?d k"
    proof (cases "map_of ?d k")
      case None
      then show ?thesis by (simp add: char)
    next
      case (Some m)
      then have "(k, m) \<in> set ?d" by (rule map_of_SomeD)
      with pos have "0 < m" by (auto simp: list_all_iff)
      then show ?thesis using Some by (simp add: char)
    qed
  qed
  show ?thesis
    unfolding self_compose_once [OF assms] using char same by simp
qed

theorem self_compose_once_keeps_positive_buckets_witness:
  "rounded_probability_mass_function
     \<lparr>rounded_probability_mass_function = [(1, 1 / 2), (- 1, 1 / 2)],
      value_discretization_interval = 1, infinity_mass = 0\<rparr> \<noteq> []
   \<and> (\<exists>pld. self_compose
               \<lparr>rounded_probability_mass_function = [(1, 1 / 2), (- 1, 1 / 2)],
                value_discretization_interval = 1, infinity_mass = 0\<rparr> 1 = Inr pld
         \<and> map_of (rounded_probability_mass_function pld) = map_of [(1, 1 / 2), (- 1, 1 / 2)]
         \<and> value_discretization_interval pld = 1
         \<and> infinity_mass pld = 0)"
  using self_compose_once_keeps_positive_buckets
    [of "\<lparr>rounded_probability_mass_function = [(1, 1 / 2), (- 1, 1 / 2)],
          value_discretization_interval = 1, infinity_mass = 0\<rparr>"]
  by auto

text \<open>
  Claim C7 as stated fails on a histogram that stores a bucket of mass zero, such as
  the one that \<open>from_randomized_response\<close> builds for two buckets: \<open>list_to_dictionary\<close>
  leaves the bucket \<open>0\<close> out, so the keys of the result differ from the original keys.
\<close>

theorem self_compose_once_drops_zero_bucket:
  "self_compose \<lparr>rounded_probability_mass_function = [(2, 3 / 4), (- 1, 1 / 4), (0, 0)],
          value_discretization_interval = 1, infinity_mass = 0\<rparr> 1
   = Inr \<lparr>rounded_probability_mass_function = [(- 1, 1 / 4), (2, 3 / 4)],
          value_discretization_interval = 1, infinity_mass = 0\<rparr>"
  by (simp add: self_compose_def self_convolve_dictionary_def dictionary_to_list_def
      dict_get_def upto.simps fft_pad_def circular_convolve_def upt_rec
      list_to_dictionary_filter)

subsection \<open>Composition is dictionary convolution\<close>

lemma dict_get_absent: "k \<notin> fst ` set d \<Longrightarrow> dict_get d k dflt = dflt"
  by (simp add: dict_get_def map_of_eq_None_iff [THEN iffD2])

lemma dict_get_Cons:
  "dict_get ((a, m) # ps) k dflt = (if k = a then m else dict_get ps k dflt)"
  by (simp add: dict_get_def)

lemma sum_over_matching_key:
  fixes c :: real and d :: "(int \<times> real) list"
  assumes "distinct (map fst d)"
  shows "(\<Sum>(k2, m2)\<leftarrow>d. if k1 + k2 = k then c * m2 else 0) = c * dict_get d (k - k1) 0"
  using assms
proof (induction d)
  case Nil
  then show ?case by (simp add: dict_get_def)
next
  case (Cons p ps)
  obtain a m where p: "p = (a, m)" by (cases p)
  from Cons.prems have fresh: "a \<notin> fst ` set ps" and dist: "distinct (map fst ps)"
    by (simp_all add: p)
  have IH: "(\<Sum>(k2, m2)\<leftarrow>ps. if k1 + k2 = k then c * m2 else 0) = c * dict_get ps (k - k1) 0"
    using Cons.IH dist by simp
  show ?case
  proof (cases "k1 + a = k")
    case True
    then have ka: "k - k1 = a" by simp
    from fresh have "dict_get ps (k - k1) 0 = (0::real)" unfolding ka by (rule dict_get_absent)
    then show ?thesis using True ka by (simp add: p IH dict_get_Cons)
  next
    case False
    then have "k - k1 \<noteq> a" by auto
    then show ?thesis using False by (simp add: p IH dict_get_Cons)
  qed
qed

lemma sum_over_dict_as_range:
  fixes h :: "int \<Rightarrow> real"
  assumes "distinct (map fst d)" and "finite S" and "fst ` set d \<subseteq> S"
  shows "(\<Sum>(k1, m1)\<leftarrow>d. m1 * h k1) = (\<Sum>k1\<in>S. dict_get d k1 0 * h k1)"
  using assms
proof (induction d)
  case Nil
  then show ?case by (simp add: dict_get_def)
next
  case (Cons p ps)
  obtain a m where p: "p = (a, m)" by (cases p)
  from Cons.prems have fresh: "a \<notin> fst ` set ps" and dist: "distinct (map fst ps)"
    and a: "a \<in> S" and sub: "fst ` set ps \<subseteq> S"
    by (simp_all add: p)
  have IH: "(\<Sum>(k1, m1)\<leftarrow>ps. m1 * h k1) = (\<Sum>k1\<in>S. dict_get ps k1 0 * h k1)"
    using Cons.IH dist Cons.prems(2) sub by simp
  have "(\<Sum>k1\<in>S. dict_get (p # ps) k1 0 * h k1)
      = dict_get (p # ps) a 0 * h a + (\<Sum>k1\<in>S - {a}. dict_get (p # ps) k1 0 * h k1)"
    using Cons.prems(2) a by (rule sum.remove)
  also have "dict_get (p # ps) a 0 = m" by (simp add: p dict_get_Cons)
  also have "(\<Sum>k1\<in>S - {a}. dict_get (p # ps) k1 0 * h k1)
      = (\<Sum>k1\<in>S - {a}. dict_get ps k1 0 * h k1)"
    by (rule sum.cong) (simp_all add: p dict_get_Cons)
  also have "m * h a + (\<Sum>k1\<in>S - {a}. dict_get ps k1 0 * h k1)
      = m * h a + (dict_get ps a 0 * h a + (\<Sum>k1\<in>S - {a}. dict_get ps k1 0 * h k1))"
    using fresh by (simp add: dict_get_absent)
  also have "dict_get ps a 0 * h a + (\<Sum>k1\<in>S - {a}. dict_get ps k1 0 * h k1)
      = (\<Sum>k1\<in>S. dict_get ps k1 0 * h k1)"
    using Cons.prems(2) a by (rule sum.remove [symmetric])
  finally show ?case by (simp add: p IH)
qed

lemma dictionary_convolution_as_range:
  assumes d1: "distinct (map fst d1)" and d2: "distinct (map fst d2)"
    and S: "finite S" "fst ` set d1 \<subseteq> S"
  shows "dictionary_convolution d1 d2 k = (\<Sum>k1\<in>S. dict_get d1 k1 0 * dict_get d2 (k - k1) 0)"
proof -
  have inner: "(\<Sum>(k2, m2)\<leftarrow>d2. if k1 + k2 = k then m1 * m2 else 0) = m1 * dict_get d2 (k - k1) 0"
    for k1 m1
    by (rule sum_over_matching_key [OF d2])
  have "dictionary_convolution d1 d2 k = (\<Sum>(k1, m1)\<leftarrow>d1. m1 * dict_get d2 (k - k1) 0)"
    unfolding dictionary_convolution_def by (simp only: inner)
  also have "\<dots> = (\<Sum>k1\<in>S. dict_get d1 k1 0 * dict_get d2 (k - k1) 0)"
    by (rule sum_over_dict_as_range [OF d1 S])
  finally show ?thesis .
qed


lemma range_sum_reindex:
  fixes g1 g2 :: "int \<Rightarrow> real"
  shows "(\<Sum>k1\<in>{mn1..mx1}. g1 k1 * g2 (k - k1))
       = (\<Sum>i\<in>{0..<nat (mx1 - mn1 + 1)}. g1 (mn1 + int i) * g2 (k - mn1 - int i))"
  by (rule sum.reindex_bij_witness [of _ "\<lambda>i. mn1 + int i" "\<lambda>k1. nat (k1 - mn1)"])
     (auto simp: algebra_simps)

lemma range_sum_outside:
  fixes g1 g2 :: "int \<Rightarrow> real"
  assumes z2: "\<And>j. j < mn2 \<or> mx2 < j \<Longrightarrow> g2 j = 0"
    and out: "k < mn1 + mn2 \<or> mx1 + mx2 < k"
  shows "(\<Sum>k1\<in>{mn1..mx1}. g1 k1 * g2 (k - k1)) = 0"
proof (rule sum.neutral, rule ballI)
  fix k1 assume "k1 \<in> {mn1..mx1}"
  with out have "k - k1 < mn2 \<or> mx2 < k - k1" by auto
  then have "g2 (k - k1) = 0" by (rule z2)
  then show "g1 k1 * g2 (k - k1) = 0" by simp
qed

lemma fftconvolve_nth:
  assumes "n < length in1 + length in2 - 1"
  shows "fftconvolve in1 in2 ! n
       = (\<Sum>i\<in>{0..<length in1}.
            if i \<le> n \<and> n - i < length in2 then in1 ! i * in2 ! (n - i) else 0)"
proof -
  let ?m = "length in1 + length in2 - 1"
  have idx: "[0..<?m] ! n = n" using assms by simp
  have "fftconvolve in1 in2 ! n
      = (\<Sum>i\<leftarrow>[0..<length in1].
            if i \<le> n \<and> n - i < length in2 then in1 ! i * in2 ! (n - i) else 0)"
    unfolding fftconvolve_def using assms by (simp only: nth_map length_upt diff_zero idx)
  then show ?thesis by (simp only: interv_sum_list_conv_sum_set_nat set_upt)
qed

lemma fftconvolve_dense_nth:
  fixes g1 g2 :: "int \<Rightarrow> real"
  assumes z2: "\<And>j. j < mn2 \<or> mx2 < j \<Longrightarrow> g2 j = 0"
    and le1: "mn1 \<le> mx1" and le2: "mn2 \<le> mx2"
    and n: "int n \<le> (mx1 - mn1) + (mx2 - mn2)"
  shows "fftconvolve (map g1 [mn1..mx1]) (map g2 [mn2..mx2]) ! n
       = (\<Sum>k1\<in>{mn1..mx1}. g1 k1 * g2 (mn1 + mn2 + int n - k1))"
proof -
  define L1 L2 where "L1 = map g1 [mn1..mx1]" and "L2 = map g2 [mn2..mx2]"
  have len1: "length L1 = nat (mx1 - mn1 + 1)" and len2: "length L2 = nat (mx2 - mn2 + 1)"
    by (simp_all add: L1_def L2_def)
  have nth1: "L1 ! i = g1 (mn1 + int i)" if "i < length L1" for i
    using that by (simp add: L1_def nth_upto)
  have nth2: "L2 ! j = g2 (mn2 + int j)" if "j < length L2" for j
    using that by (simp add: L2_def nth_upto)
  have n': "n < length L1 + length L2 - 1" using n le1 le2 unfolding len1 len2 by linarith
  have summand: "(if i \<le> n \<and> n - i < length L2 then L1 ! i * L2 ! (n - i) else 0)
        = g1 (mn1 + int i) * g2 (mn1 + mn2 + int n - mn1 - int i)"
    if "i \<in> {0..<length L1}" for i
  proof (cases "i \<le> n \<and> n - i < length L2")
    case True
    then have eq: "mn2 + int (n - i) = mn1 + mn2 + int n - mn1 - int i" by linarith
    from True have "L2 ! (n - i) = g2 (mn2 + int (n - i))" by (intro nth2) simp
    then have "L2 ! (n - i) = g2 (mn1 + mn2 + int n - mn1 - int i)" by (simp only: eq)
    moreover from that have "L1 ! i = g1 (mn1 + int i)" by (intro nth1) simp
    ultimately show ?thesis using True by simp
  next
    case False
    then have "mn1 + mn2 + int n - mn1 - int i < mn2 \<or> mx2 < mn1 + mn2 + int n - mn1 - int i"
      unfolding len2 using le2 by linarith
    then have "g2 (mn1 + mn2 + int n - mn1 - int i) = 0" by (rule z2)
    then show ?thesis using False by auto
  qed
  have "fftconvolve L1 L2 ! n
      = (\<Sum>i\<in>{0..<length L1}.
            if i \<le> n \<and> n - i < length L2 then L1 ! i * L2 ! (n - i) else 0)"
    by (rule fftconvolve_nth [OF n'])
  also have "\<dots> = (\<Sum>i\<in>{0..<length L1}. g1 (mn1 + int i) * g2 (mn1 + mn2 + int n - mn1 - int i))"
    by (rule sum.cong) (simp_all only: summand)
  also have "\<dots> = (\<Sum>k1\<in>{mn1..mx1}. g1 k1 * g2 (mn1 + mn2 + int n - k1))"
    unfolding len1 by (rule range_sum_reindex [symmetric])
  finally show ?thesis by (simp only: L1_def L2_def)
qed

lemma length_fftconvolve_dense:
  assumes "mn1 \<le> mx1" "mn2 \<le> mx2"
  shows "int (length (fftconvolve (map g1 [mn1..mx1]) (map g2 [mn2..mx2])))
       = (mx1 - mn1) + (mx2 - mn2) + 1"
  using assms by (simp add: fftconvolve_def)


lemma dict_get_outside_range:
  fixes d :: "(int \<times> real) list"
  assumes "j < Min (fst ` set d) \<or> Max (fst ` set d) < j"
  shows "dict_get d j 0 = 0"
proof (rule dict_get_absent)
  show "j \<notin> fst ` set d"
  proof
    assume "j \<in> fst ` set d"
    then have "Min (fst ` set d) \<le> j \<and> j \<le> Max (fst ` set d)" by simp
    with assms show False by auto
  qed
qed

lemma map_of_convolve_dictionary:
  assumes ne1: "d1 \<noteq> []" and ne2: "d2 \<noteq> []"
    and dist1: "distinct (map fst d1)" and dist2: "distinct (map fst d2)"
  shows "\<exists>new. convolve_dictionary d1 d2 = Inr new
      \<and> (\<forall>k. map_of new k
             = (if 0 < dictionary_convolution d1 d2 k
                then Some (dictionary_convolution d1 d2 k) else None))"
proof -
  define mn1 mx1 where "mn1 = Min (fst ` set d1)" and "mx1 = Max (fst ` set d1)"
  define mn2 mx2 where "mn2 = Min (fst ` set d2)" and "mx2 = Max (fst ` set d2)"
  define g1 g2 where "g1 = (\<lambda>i. dict_get d1 i (0::real))" and "g2 = (\<lambda>i. dict_get d2 i (0::real))"
  define R where "R = fftconvolve (map g1 [mn1..mx1]) (map g2 [mn2..mx2])"
  have le1: "mn1 \<le> mx1" using ne1 by (simp add: mn1_def mx1_def)
  have le2: "mn2 \<le> mx2" using ne2 by (simp add: mn2_def mx2_def)
  have z2: "g2 j = 0" if "j < mn2 \<or> mx2 < j" for j
    unfolding g2_def using that unfolding mn2_def mx2_def by (rule dict_get_outside_range)
  have keys1: "fst ` set d1 \<subseteq> {mn1..mx1}"
  proof
    fix x assume "x \<in> fst ` set d1"
    then have "Min (fst ` set d1) \<le> x \<and> x \<le> Max (fst ` set d1)" by simp
    then show "x \<in> {mn1..mx1}" by (simp add: mn1_def mx1_def)
  qed
  have conv: "dictionary_convolution d1 d2 k = (\<Sum>k1\<in>{mn1..mx1}. g1 k1 * g2 (k - k1))" for k
    unfolding g1_def g2_def
    by (rule dictionary_convolution_as_range [OF dist1 dist2 _ keys1]) simp
  have lenR: "int (length R) = (mx1 - mn1) + (mx2 - mn2) + 1"
    unfolding R_def by (rule length_fftconvolve_dense [OF le1 le2])
  have run: "convolve_dictionary d1 d2 = Inr (list_to_dictionary R (mn1 + mn2))"
    by (simp add: convolve_dictionary_def dictionary_to_list_nonempty [OF ne1]
        dictionary_to_list_nonempty [OF ne2] R_def g1_def g2_def
        mn1_def mx1_def mn2_def mx2_def)
  have char: "map_of (list_to_dictionary R (mn1 + mn2)) k
       = (if 0 < dictionary_convolution d1 d2 k
          then Some (dictionary_convolution d1 d2 k) else None)" for k
  proof (cases "mn1 + mn2 \<le> k \<and> k < mn1 + mn2 + int (length R)")
    case True
    define n where "n = nat (k - (mn1 + mn2))"
    from True have n: "int n = k - (mn1 + mn2)" by (simp add: n_def)
    with True lenR have nle: "int n \<le> (mx1 - mn1) + (mx2 - mn2)" by linarith
    have "R ! n = (\<Sum>k1\<in>{mn1..mx1}. g1 k1 * g2 (mn1 + mn2 + int n - k1))"
      unfolding R_def using z2 le1 le2 nle by (rule fftconvolve_dense_nth)
    also have "mn1 + mn2 + int n = k" using n by simp
    finally have "R ! n = dictionary_convolution d1 d2 k" by (simp only: conv)
    then show ?thesis
      using True unfolding map_of_list_to_dictionary n_def by simp
  next
    case False
    then have out: "k < mn1 + mn2 \<or> mx1 + mx2 < k" unfolding lenR by linarith
    have "(\<Sum>k1\<in>{mn1..mx1}. g1 k1 * g2 (k - k1)) = 0"
      using z2 out by (rule range_sum_outside)
    then have "dictionary_convolution d1 d2 k = 0" by (simp only: conv)
    then show ?thesis
      using False unfolding map_of_list_to_dictionary by auto
  qed
  show ?thesis using run char by simp
qed


lemma compose_mismatch_iff:
  "compose self other = Inl (ValueError ''Discretization intervals are different'')
   \<longleftrightarrow> value_discretization_interval self \<noteq> value_discretization_interval other"
  by (auto simp: compose_def convolve_dictionary_def dictionary_to_list_def Let_def
      split: sum.splits list.splits prod.splits)

lemma compose_empty:
  assumes "value_discretization_interval self = value_discretization_interval other"
    and "rounded_probability_mass_function self = []
       \<or> rounded_probability_mass_function other = []"
  shows "compose self other = Inl (ValueError ''min() arg is an empty sequence'')"
  using assms
  by (auto simp: compose_def convolve_dictionary_def dictionary_to_list_def Let_def
      split: sum.splits list.splits prod.splits)

text \<open>
  On two non-empty histograms with equal discretization intervals \<open>compose\<close> returns
  the dictionary convolution: the mass of every key of the result is the sum over all
  pairs of keys adding up to it of the products of the masses, and a key is present
  exactly when that sum is strictly positive. The infinity mass of the result is
  \<open>a + b - a * b\<close>. The configuration-mismatch error is raised exactly when the
  intervals differ.
\<close>

lemma compose_nonempty_is_dictionary_convolution:
  "(compose self other = Inl (ValueError ''Discretization intervals are different'')
      \<longleftrightarrow> value_discretization_interval self \<noteq> value_discretization_interval other)
   \<and> (value_discretization_interval self = value_discretization_interval other
        \<and> rounded_probability_mass_function self \<noteq> []
        \<and> rounded_probability_mass_function other \<noteq> []
        \<and> distinct (map fst (rounded_probability_mass_function self))
        \<and> distinct (map fst (rounded_probability_mass_function other)) \<longrightarrow>
        (\<exists>pld. compose self other = Inr pld
           \<and> (\<forall>key. map_of (rounded_probability_mass_function pld) key
                  = (if 0 < dictionary_convolution (rounded_probability_mass_function self)
                             (rounded_probability_mass_function other) key
                     then Some (dictionary_convolution (rounded_probability_mass_function self)
                                  (rounded_probability_mass_function other) key)
                     else None))
           \<and> infinity_mass pld
               = infinity_mass self + infinity_mass other
                 - infinity_mass self * infinity_mass other
           \<and> value_discretization_interval pld = value_discretization_interval self))"
proof (intro conjI impI)
  show "compose self other = Inl (ValueError ''Discretization intervals are different'')
      \<longleftrightarrow> value_discretization_interval self \<noteq> value_discretization_interval other"
    by (rule compose_mismatch_iff)
next
  assume a: "value_discretization_interval self = value_discretization_interval other
        \<and> rounded_probability_mass_function self \<noteq> []
        \<and> rounded_probability_mass_function other \<noteq> []
        \<and> distinct (map fst (rounded_probability_mass_function self))
        \<and> distinct (map fst (rounded_probability_mass_function other))"
  then obtain new where
    new: "convolve_dictionary (rounded_probability_mass_function self)
            (rounded_probability_mass_function other) = Inr new"
    and char: "\<forall>k. map_of new k
             = (if 0 < dictionary_convolution (rounded_probability_mass_function self)
                        (rounded_probability_mass_function other) k
                then Some (dictionary_convolution (rounded_probability_mass_function self)
                             (rounded_probability_mass_function other) k)
                else None)"
    using map_of_convolve_dictionary
      [of "rounded_probability_mass_function self" "rounded_probability_mass_function other"]
    by blast
  show "\<exists>pld. compose self other = Inr pld
           \<and> (\<forall>key. map_of (rounded_probability_mass_function pld) key
                  = (if 0 < dictionary_convolution (rounded_probability_mass_function self)
                             (rounded_probability_mass_function other) key
                     then Some (dictionary_convolution (rounded_probability_mass_function self)
                                  (rounded_probability_mass_function other) key)
                     else None))
           \<and> infinity_mass pld
               = infinity_mass self + infinity_mass other
                 - infinity_mass self * infinity_mass other
           \<and> value_discretization_interval pld = value_discretization_interval self"
    using a new char by (simp add: compose_def)
qed

text \<open>
  Claim C5. With equal discretization intervals \<open>compose\<close> is claimed to return the
  dictionary convolution of the two histograms with infinity mass \<open>a + b - a * b\<close>, for
  every two privacy loss distributions. Two mass functions with disjoint support give
  a distribution whose histogram is empty and whose infinity mass is \<open>1\<close>;
  \<open>get_delta_for_epsilon\<close> and \<open>get_epsilon_for_delta\<close> answer on it, but composing it
  with itself raises the \<^verbatim>\<open>ValueError\<close> of \<^verbatim>\<open>min\<close> on an empty dictionary although the
  intervals agree, where the claim has the empty histogram with infinity mass \<open>1\<close>.
\<close>

theorem compose_empty_histogram_raises:
  "from_two_probability_mass_functions [(''a'', LogMass 0)] [(''b'', LogMass 0)] True
       (1 / 10000) NegInf
     = Inr \<lparr>rounded_probability_mass_function = [],
            value_discretization_interval = 1 / 10000, infinity_mass = 1\<rparr>
   \<and> get_delta_for_epsilon
        \<lparr>rounded_probability_mass_function = [],
         value_discretization_interval = 1 / 10000, infinity_mass = 1\<rparr> 0 = 1
   \<and> get_epsilon_for_delta
        \<lparr>rounded_probability_mass_function = [],
         value_discretization_interval = 1 / 10000, infinity_mass = 1\<rparr> 1 = Inr (Fin 0)
   \<and> compose
        \<lparr>rounded_probability_mass_function = [],
         value_discretization_interval = 1 / 10000, infinity_mass = 1\<rparr>
        \<lparr>rounded_probability_mass_function = [],
         value_discretization_interval = 1 / 10000, infinity_mass = 1\<rparr>
      = Inl (ValueError ''min() arg is an empty sequence'')"
  by (simp add: from_two_probability_mass_functions_def upper_only_mass_def dict_get_def
      discretize_def compose_def convolve_dictionary_def dictionary_to_list_def
      get_delta_for_epsilon_def get_epsilon_for_delta_def epsilon_after_loop_def)

subsection \<open>Mass conservation for two explicit distributions\<close>

lemma dict_total_update:
  "dict_total (AList.update k (dict_get d k 0 + v) d) = dict_total d + v"
  by (induction d) (auto simp: dict_total_def dict_get_def)

lemma dict_total_dict_add: "dict_total (dict_add d k v) = dict_total d + v"
  by (simp add: dict_add_def dict_total_update)

lemma dict_total_discretize_fold:
  "dict_total (fold (\<lambda>(val, mass) rounded.
                        dict_add rounded (round_fn pess (val / interval)) mass) pmf acc)
   = dict_total acc + dict_total pmf"
proof (induction pmf arbitrary: acc)
  case Nil
  then show ?case by (simp add: dict_total_def)
next
  case (Cons p pmf)
  obtain val mass where p: "p = (val, mass)" by (cases p)
  show ?case by (simp add: p Cons.IH dict_total_dict_add) (simp add: dict_total_def)
qed

lemma discretize_total:
  assumes "interval \<noteq> 0"
  shows "\<exists>rounded. discretize pess interval pmf = Inr rounded \<and> dict_total rounded = dict_total pmf"
  using assms by (simp add: discretize_def dict_total_discretize_fold) (simp add: dict_total_def)

lemma pmf_step_total:
  "dict_total (fst (pmf_step upper pess bound entry st)) + snd (pmf_step upper pess bound entry st)
   = dict_total (fst st) + snd st + accounted upper pess bound entry"
proof -
  obtain outcome l where e: "entry = (outcome, l)" by (cases entry)
  obtain pmf im where st: "st = (pmf, im)" by (cases st)
  show ?thesis
    by (cases l; cases "dict_get upper outcome NegInf")
       (auto simp: e st dict_total_dict_add)
qed

lemma pmf_fold_total:
  "dict_total (fst (fold (pmf_step upper pess bound) lower st))
     + snd (fold (pmf_step upper pess bound) lower st)
   = dict_total (fst st) + snd st + (\<Sum>entry\<leftarrow>lower. accounted upper pess bound entry)"
  by (induction lower arbitrary: st) (simp_all add: pmf_step_total)

lemma upper_only_mass_sum:
  "fold (\<lambda>(outcome, lu) inf_mass.
             if dict_get lower outcome NegInf = NegInf
             then inf_mass + logmass_exp lu
             else inf_mass) upper a
   = a + (\<Sum>(outcome, lu)\<leftarrow>upper.
            if dict_get lower outcome NegInf = NegInf then logmass_exp lu else 0)"
  by (induction upper arbitrary: a) auto


lemma logmass_exp_nonneg: "0 \<le> logmass_exp l"
  by (cases l) simp_all

lemma sum_at_key:
  assumes "distinct (map fst upper)"
  shows "(\<Sum>(outcome, lu)\<leftarrow>upper. if outcome = a then logmass_exp lu else 0)
       = logmass_exp (dict_get upper a NegInf)"
  using assms
proof (induction upper)
  case Nil
  then show ?case by (simp add: dict_get_def)
next
  case (Cons p ps)
  obtain b l where p: "p = (b, l)" by (cases p)
  from Cons.prems have fresh: "b \<notin> fst ` set ps" and dist: "distinct (map fst ps)"
    by (simp_all add: p)
  have IH: "(\<Sum>(outcome, lu)\<leftarrow>ps. if outcome = a then logmass_exp lu else 0)
       = logmass_exp (dict_get ps a NegInf)"
    using Cons.IH dist by simp
  show ?case
  proof (cases "b = a")
    case True
    with fresh have "dict_get ps a NegInf = NegInf" by (simp add: dict_get_absent)
    then show ?thesis using True by (simp add: p IH dict_get_Cons)
  next
    case False
    then show ?thesis by (simp add: p IH dict_get_Cons)
  qed
qed

lemma cross_sum:
  assumes "distinct (map fst lower)" and U: "distinct (map fst upper)"
  shows "(\<Sum>(outcome, ll)\<leftarrow>lower.
            if ll = NegInf then 0 else logmass_exp (dict_get upper outcome NegInf))
       = (\<Sum>(outcome, lu)\<leftarrow>upper.
            if dict_get lower outcome NegInf = NegInf then 0 else logmass_exp lu)"
  using assms(1)
proof (induction lower)
  case Nil
  then show ?case by (simp add: dict_get_def)
next
  case (Cons p ps)
  obtain a l where p: "p = (a, l)" by (cases p)
  from Cons.prems have fresh: "a \<notin> fst ` set ps" and dist: "distinct (map fst ps)"
    by (simp_all add: p)
  from fresh have absent: "dict_get ps a NegInf = NegInf" by (simp add: dict_get_absent)
  have split: "(if dict_get (p # ps) outcome NegInf = NegInf then 0 else logmass_exp lu)
       = (if dict_get ps outcome NegInf = NegInf then 0 else logmass_exp lu)
         + (if l = NegInf then 0 else (if outcome = a then logmass_exp lu else 0))"
    for outcome lu
    using absent by (simp add: p dict_get_Cons)
  have "(\<Sum>(outcome, lu)\<leftarrow>upper.
            if dict_get (p # ps) outcome NegInf = NegInf then 0 else logmass_exp lu)
      = (\<Sum>(outcome, lu)\<leftarrow>upper.
            (if dict_get ps outcome NegInf = NegInf then 0 else logmass_exp lu)
            + (if l = NegInf then 0 else (if outcome = a then logmass_exp lu else 0)))"
    by (simp only: split)
  also have "\<dots> = (\<Sum>(outcome, lu)\<leftarrow>upper.
            if dict_get ps outcome NegInf = NegInf then 0 else logmass_exp lu)
         + (\<Sum>(outcome, lu)\<leftarrow>upper.
            if l = NegInf then 0 else (if outcome = a then logmass_exp lu else 0))"
    by (induction upper) auto
  also have "(\<Sum>(outcome, lu)\<leftarrow>upper.
            if l = NegInf then 0 else (if outcome = a then logmass_exp lu else 0))
       = (if l = NegInf then 0 else logmass_exp (dict_get upper a NegInf))"
  proof (cases "l = NegInf")
    case True
    have "(\<Sum>(outcome, lu)\<leftarrow>upper. (0::real)) = 0" by (induction upper) auto
    then show ?thesis using True by simp
  next
    case False
    then show ?thesis using sum_at_key [OF U, of a] by simp
  qed
  finally show ?case using Cons.IH dist by (simp add: p)
qed

lemma accounted_pessimistic:
  "accounted upper True bound entry
   = (case entry of (outcome, ll) \<Rightarrow>
        if ll = NegInf then 0 else logmass_exp (dict_get upper outcome NegInf))"
proof -
  obtain outcome l where e: "entry = (outcome, l)" by (cases entry)
  show ?thesis by (cases l) (simp_all add: e)
qed

lemma accounted_le:
  "accounted upper False bound entry \<le> accounted upper True bound entry"
proof -
  obtain outcome l where e: "entry = (outcome, l)" by (cases entry)
  show ?thesis by (cases l) (simp_all add: e logmass_exp_nonneg)
qed

lemma pessimistic_total:
  assumes L: "distinct (map fst lower)" and U: "distinct (map fst upper)"
  shows "upper_only_mass lower upper + (\<Sum>entry\<leftarrow>lower. accounted upper True bound entry)
       = (\<Sum>(outcome, lu)\<leftarrow>upper. logmass_exp lu)"
proof -
  have "(\<Sum>entry\<leftarrow>lower. accounted upper True bound entry)
      = (\<Sum>(outcome, lu)\<leftarrow>upper.
            if dict_get lower outcome NegInf = NegInf then 0 else logmass_exp lu)"
    unfolding accounted_pessimistic by (rule cross_sum [OF L U])
  moreover have "upper_only_mass lower upper
      = (\<Sum>(outcome, lu)\<leftarrow>upper.
            if dict_get lower outcome NegInf = NegInf then logmass_exp lu else 0)"
    by (simp add: upper_only_mass_def upper_only_mass_sum)
  moreover have "(\<Sum>(outcome, lu)\<leftarrow>upper.
            if dict_get lower outcome NegInf = NegInf then logmass_exp lu else 0)
       + (\<Sum>(outcome, lu)\<leftarrow>upper.
            if dict_get lower outcome NegInf = NegInf then 0 else logmass_exp lu)
       = (\<Sum>(outcome, lu)\<leftarrow>upper. logmass_exp lu)"
    by (induction upper) auto
  ultimately show ?thesis by simp
qed

lemma from_two_total:
  assumes "interval \<noteq> 0"
  shows "\<exists>pld. from_two_probability_mass_functions lower upper pess interval bound = Inr pld
      \<and> infinity_mass pld + dict_total (rounded_probability_mass_function pld)
        = upper_only_mass lower upper + (\<Sum>entry\<leftarrow>lower. accounted upper pess bound entry)"
proof -
  define st where "st = fold (pmf_step upper pess bound) lower ([], upper_only_mass lower upper)"
  obtain rounded where r: "discretize pess interval (fst st) = Inr rounded"
    and t: "dict_total rounded = dict_total (fst st)"
    using discretize_total [OF assms] by blast
  have "dict_total (fst st) + snd st
      = upper_only_mass lower upper + (\<Sum>entry\<leftarrow>lower. accounted upper pess bound entry)"
    unfolding st_def pmf_fold_total by (simp add: dict_total_def)
  moreover have "from_two_probability_mass_functions lower upper pess interval bound
      = Inr \<lparr>rounded_probability_mass_function = rounded,
             value_discretization_interval = interval, infinity_mass = snd st\<rparr>"
    using r by (simp add: from_two_probability_mass_functions_def st_def [symmetric]
        case_prod_beta)
  ultimately show ?thesis using t by simp
qed

text \<open>
  Claim C3. Let the two log-probability mass functions be dictionaries (distinct keys)
  and let the upper one be complete: its probabilities sum to \<open>1\<close>. Then, for a
  non-zero discretization interval and any truncation bound,
  \<open>from_two_probability_mass_functions\<close> returns a distribution whose infinity mass
  plus the total mass of the histogram is \<open>1\<close> under the pessimistic estimate and at
  most \<open>1\<close> under the optimistic one. Completeness of the lower distribution and a
  shared outcome domain are not needed.
\<close>

theorem from_two_probability_mass_functions_mass:
  assumes "distinct (map fst log_pmf_lower)" and "distinct (map fst log_pmf_upper)"
    and "(\<Sum>(outcome, lu)\<leftarrow>log_pmf_upper. logmass_exp lu) = 1"
    and "interval \<noteq> 0"
  shows "(\<exists>pld. from_two_probability_mass_functions log_pmf_lower log_pmf_upper True
                 interval bound = Inr pld
            \<and> infinity_mass pld + dict_total (rounded_probability_mass_function pld) = 1)
       \<and> (\<exists>pld. from_two_probability_mass_functions log_pmf_lower log_pmf_upper False
                 interval bound = Inr pld
            \<and> infinity_mass pld + dict_total (rounded_probability_mass_function pld) \<le> 1)"
proof
  have one: "upper_only_mass log_pmf_lower log_pmf_upper
        + (\<Sum>entry\<leftarrow>log_pmf_lower. accounted log_pmf_upper True bound entry) = 1"
    using pessimistic_total [OF assms(1,2)] assms(3) by simp
  show "\<exists>pld. from_two_probability_mass_functions log_pmf_lower log_pmf_upper True
                 interval bound = Inr pld
            \<and> infinity_mass pld + dict_total (rounded_probability_mass_function pld) = 1"
    using from_two_total [OF assms(4), of log_pmf_lower log_pmf_upper True bound] one by simp
  have "(\<Sum>entry\<leftarrow>log_pmf_lower. accounted log_pmf_upper False bound entry)
      \<le> (\<Sum>entry\<leftarrow>log_pmf_lower. accounted log_pmf_upper True bound entry)"
    by (rule sum_list_mono) (rule accounted_le)
  with one have "upper_only_mass log_pmf_lower log_pmf_upper
        + (\<Sum>entry\<leftarrow>log_pmf_lower. accounted log_pmf_upper False bound entry) \<le> 1"
    by simp
  then show "\<exists>pld. from_two_probability_mass_functions log_pmf_lower log_pmf_upper False
                 interval bound = Inr pld
            \<and> infinity_mass pld + dict_total (rounded_probability_mass_function pld) \<le> 1"
    using from_two_total [OF assms(4), of log_pmf_lower log_pmf_upper False bound] by auto
qed


theorem from_two_probability_mass_functions_mass_witness:
  "distinct (map fst [(''a'', LogMass (ln (1 / 2))), (''b'', LogMass (ln (1 / 2)))])
   \<and> distinct (map fst [(''a'', LogMass (ln (1 / 4))), (''b'', LogMass (ln (3 / 4)))])
   \<and> (\<Sum>(outcome, lu)\<leftarrow>[(''a'', LogMass (ln (1 / 4))), (''b'', LogMass (ln (3 / 4)))].
         logmass_exp lu) = 1
   \<and> (1 / 10000 :: real) \<noteq> 0
   \<and> (\<exists>pld. from_two_probability_mass_functions
                [(''a'', LogMass (ln (1 / 2))), (''b'', LogMass (ln (1 / 2)))]
                [(''a'', LogMass (ln (1 / 4))), (''b'', LogMass (ln (3 / 4)))]
                True (1 / 10000) NegInf = Inr pld
          \<and> infinity_mass pld + dict_total (rounded_probability_mass_function pld) = 1)
   \<and> (\<exists>pld. from_two_probability_mass_functions
                [(''a'', LogMass (ln (1 / 2))), (''b'', LogMass (ln (1 / 2)))]
                [(''a'', LogMass (ln (1 / 4))), (''b'', LogMass (ln (3 / 4)))]
                False (1 / 10000) NegInf = Inr pld
          \<and> infinity_mass pld + dict_total (rounded_probability_mass_function pld) \<le> 1)"
proof -
  have s: "(\<Sum>(outcome, lu)\<leftarrow>[(''a'', LogMass (ln (1 / 4))), (''b'', LogMass (ln (3 / 4)))].
         logmass_exp lu) = 1"
    by simp
  show ?thesis
    using from_two_probability_mass_functions_mass
      [of "[(''a'', LogMass (ln (1 / 2))), (''b'', LogMass (ln (1 / 2)))]"
          "[(''a'', LogMass (ln (1 / 4))), (''b'', LogMass (ln (3 / 4)))]"
          "1 / 10000" NegInf] s
    by simp
qed

subsection \<open>Which stored buckets have positive mass\<close>



























lemma xreal_le_refl: "xreal_le a a"
  by (cases a) simp_all
























end
